theory Spec2Isabelle
  imports Complex_Main
begin

section \<open>The Gemini proxy handlers\<close>

text \<open>
  The repository holds three variants of one serverless handler that relays a prompt to
  the Gemini API. The Vercel variant with the retry loop is embedded below as
  \<open>handler\<close>; the Netlify variant (\<open>netlify/functions/gemini-proxy.js\<close>), which
  calls the upstream once, is embedded as \<open>netlify_handler\<close>. The third variant is
  the Netlify one written against the \<open>req\<close>/\<open>res\<close> interface and takes the same
  branches.

  What the handlers observe of the outside is an explicit environment: the value of
  \<open>process.env.GEMINI_API_KEY\<close>, what the \<open>fetch\<close> of attempt \<open>i\<close> does, and
  the value \<open>Math.random()\<close> yields in attempt \<open>i\<close> (the loop draws at most one per
  attempt). What they do to the outside is an explicit world that is passed along: the
  number of \<open>fetch\<close> calls made, the per-attempt timers still pending, and the backoff
  delays waited for. A JavaScript number is modelled as the rational it denotes, and the
  arithmetic of the delay rounds as doubles do. The CORS headers, the payload sent
  upstream and the console output influence no branch and are left out.
\<close>

subsection \<open>Data\<close>

type_synonym json = string

text \<open>
  A \<open>Response\<close> as the handlers use it: the status, and what \<open>response.json()\<close>
  and \<open>response.text()\<close> give when awaited, \<open>Inl\<close> the message of the error they
  reject with.
\<close>

record response =
  status :: nat
  resp_json :: "string + json"
  resp_text :: "string + string"

text \<open>\<open>response.ok\<close>: the status is in the range 200 to 299.\<close>

definition ok :: "response \<Rightarrow> bool" where
  "ok r = (200 \<le> status r \<and> status r \<le> 299)"

text \<open>
  A rejected \<open>fetch\<close>: \<open>Aborted\<close> when the per-attempt timer fired and aborted the
  call through the controller's signal, \<open>Failed\<close> for a network-level error while the
  timer is still running. Both carry the error's \<open>message\<close>.
\<close>

datatype fetch_error = Aborted string | Failed string

fun message :: "fetch_error \<Rightarrow> string" where
  "message (Aborted m) = m"
| "message (Failed m) = m"

datatype fetch_outcome = Resolves response | Rejects fetch_error

record env =
  GEMINI_API_KEY :: "string option"
  upstream :: "nat \<Rightarrow> fetch_outcome"
  random :: "nat \<Rightarrow> rat"

record world =
  calls :: nat
  pending :: "nat list"
  delays :: "rat list"

definition world0 :: world where
  "world0 = \<lparr>calls = 0, pending = [], delays = []\<rparr>"

text \<open>
  What is sent back: \<open>res.status(s).end()\<close>, \<open>res.status(s).json(obj)\<close> with an
  object literal of string fields (kept in the order of the source), or
  \<open>res.status(s).json(result)\<close> with the parsed upstream body.
\<close>

datatype res_body = End | Json_obj "(string \<times> string) list" | Json_value json

record http_response =
  statusCode :: nat
  body :: res_body

record req_body =
  userInput :: string
  systemPrompt :: string
  useSearch :: bool

text \<open>
  The inbound request: \<open>req.method\<close>, and \<open>req.body\<close> as the destructuring on
  the first line of the \<open>try\<close> block meets it, \<open>Inl\<close> the message of the error it
  throws when there is no body to destructure.
\<close>

record request =
  req_method :: string
  req_body :: "string + req_body"

text \<open>
  The retry configuration. The source binds \<open>MAX_RETRIES\<close>, \<open>BASE_DELAY\<close> and
  \<open>PER_ATTEMPT_TIMEOUT\<close> right before the loop and writes the jitter bound \<open>120\<close>
  in place; the loop below takes them as a record, and \<open>policy\<close> holds the values of
  the source. Time is not modelled: that the timer of \<open>PER_ATTEMPT_TIMEOUT\<close>
  milliseconds fired first is the outcome \<open>Aborted\<close> of a \<open>fetch\<close>.
\<close>

record retry_policy =
  MAX_RETRIES :: nat
  BASE_DELAY :: rat
  PER_ATTEMPT_TIMEOUT :: nat
  JITTER_BOUND :: rat

definition policy :: retry_policy where
  "policy = \<lparr>MAX_RETRIES = 5, BASE_DELAY = 200, PER_ATTEMPT_TIMEOUT = 15000,
              JITTER_BOUND = 120\<rparr>"

subsection \<open>Template strings\<close>

text \<open>The decimal digits of a number, as \<open>${response.status}\<close> prints them.\<close>

fun string_of_nat :: "nat \<Rightarrow> string" where
  "string_of_nat n =
     (if n < 10 then [''0123456789'' ! n]
      else string_of_nat (n div 10) @ [''0123456789'' ! (n mod 10)])"

declare string_of_nat.simps [simp del]

subsection \<open>Double arithmetic\<close>

text \<open>
  JavaScript numbers are IEEE 754 doubles, and every arithmetic operation rounds its exact
  result to the nearest double, ties to the one with an even significand. A double is
  kept here as the rational it denotes, and \<open>fl\<close> is that rounding; the delay of the
  source applies it after the product, after the jitter and after the sum. Results beyond
  the largest finite double, which would be \<open>Infinity\<close>, are not modelled: the delays
  of the source stay below \<open>2 ^ 11\<close>.

  \<open>rne\<close> rounds to the nearest integer, ties to even.
\<close>

definition rne :: "rat \<Rightarrow> int" where
  "rne x =
     (let f = \<lfloor>x\<rfloor>; d = x - of_int f
      in if d < 1 / 2 then f else if 1 / 2 < d then f + 1 else if even f then f else f + 1)"

text \<open>
  The binary exponent of a positive number, the \<open>e\<close> with
  \<open>2 ^ e \<le> x < 2 ^ (e + 1)\<close>: the number of halvings that bring \<open>x\<close> below 2, or
  minus the number of doublings that bring it to 1.
\<close>

function halvings :: "rat \<Rightarrow> nat" where
  "halvings x = (if 2 \<le> x then Suc (halvings (x / 2)) else 0)"
  by pat_completeness auto
termination
proof (relation "measure (\<lambda>x. nat \<lfloor>x\<rfloor>)")
  show "wf (measure (\<lambda>x::rat. nat \<lfloor>x\<rfloor>))" by simp
next
  fix x :: rat assume "2 \<le> x"
  then have "\<lfloor>x / 2\<rfloor> < \<lfloor>x\<rfloor>" by linarith
  moreover have "0 < \<lfloor>x\<rfloor>" using \<open>2 \<le> x\<close> by linarith
  ultimately show "(x / 2, x) \<in> measure (\<lambda>x. nat \<lfloor>x\<rfloor>)" by simp
qed

function doublings :: "rat \<Rightarrow> nat" where
  "doublings x = (if 0 < x \<and> x < 1 then Suc (doublings (2 * x)) else 0)"
  by pat_completeness auto
termination
proof (relation "measure (\<lambda>x. nat \<lfloor>1 / x\<rfloor>)")
  show "wf (measure (\<lambda>x::rat. nat \<lfloor>1 / x\<rfloor>))" by simp
next
  fix x :: rat assume a: "0 < x \<and> x < 1"
  then have "1 \<le> 1 / x" by simp
  then have "0 < \<lfloor>1 / x\<rfloor>" by linarith
  moreover have "\<lfloor>(1 / x) / 2\<rfloor> < \<lfloor>1 / x\<rfloor>"
  proof -
    define z where "z = 1 / x"
    have "1 \<le> z" using \<open>1 \<le> 1 / x\<close> by (simp add: z_def)
    have "\<lfloor>z / 2\<rfloor> < \<lfloor>z\<rfloor>"
    proof (cases "z < 2")
      case True
      then have "\<lfloor>z / 2\<rfloor> < 1" by (simp add: floor_less_iff)
      moreover have "1 \<le> \<lfloor>z\<rfloor>" using \<open>1 \<le> z\<close> by (simp add: le_floor_iff)
      ultimately show ?thesis by linarith
    next
      case False
      then show ?thesis by linarith
    qed
    then show ?thesis by (simp add: z_def)
  qed
  then have "\<lfloor>1 / (2 * x)\<rfloor> < \<lfloor>1 / x\<rfloor>" by (simp add: field_simps)
  ultimately show "(2 * x, x) \<in> measure (\<lambda>x. nat \<lfloor>1 / x\<rfloor>)" by simp
qed

declare halvings.simps [simp del] doublings.simps [simp del]

definition exponent :: "rat \<Rightarrow> int" where
  "exponent x = (if 1 \<le> x then int (halvings x) else - int (doublings x))"

text \<open>
  \<open>scale2 k x\<close> is \<open>x * 2 ^ k\<close> for an integer \<open>k\<close>. The spacing of the doubles
  around \<open>x\<close> is \<open>2 ^ quantum x\<close>: 53 significant bits in the normal range, and
  \<open>2 ^ - 1074\<close> for the subnormal numbers.
\<close>

definition scale2 :: "int \<Rightarrow> rat \<Rightarrow> rat" where
  "scale2 k x = (if 0 \<le> k then x * 2 ^ nat k else x / 2 ^ nat (- k))"

definition quantum :: "rat \<Rightarrow> int" where
  "quantum x = max (exponent x - 52) (- 1074)"

definition fl_pos :: "rat \<Rightarrow> rat" where
  "fl_pos x = scale2 (quantum x) (of_int (rne (scale2 (- quantum x) x)))"

definition fl :: "rat \<Rightarrow> rat" where
  "fl x = (if x < 0 then - fl_pos (- x) else fl_pos x)"

subsection \<open>One attempt\<close>

text \<open>
  \<open>delay = BASE_DELAY * (2 ** attempt) + jitter\<close> with
  \<open>jitter = Math.random() * 120\<close>; the same two lines stand in the status branch and
  in the \<open>catch\<close> block. \<open>2 ** attempt\<close> is a power of two and exact; the product,
  the jitter and the sum are each rounded.
\<close>

definition retry_delay :: "retry_policy \<Rightarrow> env \<Rightarrow> nat \<Rightarrow> rat" where
  "retry_delay p e attempt =
     (let jitter = fl (random e attempt * JITTER_BOUND p)
      in fl (fl (BASE_DELAY p * 2 ^ attempt) + jitter))"

text \<open>\<open>await new Promise(resolve => setTimeout(resolve, delay))\<close>\<close>

definition backoff :: "retry_policy \<Rightarrow> env \<Rightarrow> nat \<Rightarrow> world \<Rightarrow> world" where
  "backoff p e attempt w = w\<lparr>delays := delays w @ [retry_delay p e attempt]\<rparr>"

datatype step = Return http_response | Continue

text \<open>
  The \<open>catch (fetchError)\<close> block of the loop body. It is entered by a rejected
  \<open>fetch\<close> and also by a rejected \<open>response.json()\<close> or \<open>response.text()\<close>,
  which are awaited inside the same \<open>try\<close>. The test
  \<open>attempt < MAX_RETRIES - 1\<close> is on natural numbers here; the loop is entered only
  with \<open>attempt < MAX_RETRIES\<close>, where the subtraction does not truncate.
\<close>

definition on_catch :: "retry_policy \<Rightarrow> env \<Rightarrow> nat \<Rightarrow> string \<Rightarrow> world \<Rightarrow> step \<times> world" where
  "on_catch p e attempt msg w =
     (if attempt < MAX_RETRIES p - 1 then (Continue, backoff p e attempt w)
      else (Return \<lparr>statusCode = 504,
                    body = Json_obj [(''error'', ''Gateway timeout''),
                                     (''message'', ''Failed to get response from Gemini API''),
                                     (''details'', msg)]\<rparr>, w))"

text \<open>
  The loop body. \<open>setTimeout\<close> puts the attempt's timer into \<open>pending\<close>; it leaves
  when it fires during the attempt (the \<open>Aborted\<close> rejection) or when
  \<open>clearTimeout\<close> runs, which the source calls on the line after the awaited
  \<open>fetch\<close> and nowhere else. So \<open>pending\<close> holds the timers that their own attempt
  left running. The model has no clock: such a timer stays in \<open>pending\<close>, whereas in
  the program it fires \<open>PER_ATTEMPT_TIMEOUT\<close> milliseconds after it was set, which
  may be before the handler returns when later attempts take that long.
\<close>

definition attempt_body :: "retry_policy \<Rightarrow> env \<Rightarrow> nat \<Rightarrow> world \<Rightarrow> step \<times> world" where
  "attempt_body p e attempt w =
     (let w1 = w\<lparr>pending := attempt # pending w\<rparr>;
          w2 = w1\<lparr>calls := calls w1 + 1\<rparr>
      in case upstream e attempt of
           Rejects (Aborted m) \<Rightarrow>
             on_catch p e attempt m (w2\<lparr>pending := remove1 attempt (pending w2)\<rparr>)
         | Rejects (Failed m) \<Rightarrow> on_catch p e attempt m w2
         | Resolves r \<Rightarrow>
             (let w3 = w2\<lparr>pending := remove1 attempt (pending w2)\<rparr>
              in if ok r then
                   (case resp_json r of
                      Inl m \<Rightarrow> on_catch p e attempt m w3
                    | Inr result \<Rightarrow>
                        (Return \<lparr>statusCode = 200, body = Json_value result\<rparr>, w3))
                 else if (status r = 429 \<or> status r \<ge> 500) \<and> attempt < MAX_RETRIES p - 1
                 then (Continue, backoff p e attempt w3)
                 else
                   (case resp_text r of
                      Inl m \<Rightarrow> on_catch p e attempt m w3
                    | Inr errorText \<Rightarrow>
                        (Return \<lparr>statusCode = status r,
                                 body = Json_obj
                                   [(''error'', ''Gemini API error: '' @ string_of_nat (status r)),
                                    (''details'', errorText)]\<rparr>, w3))))"

subsection \<open>The attempt loop and the handler\<close>

text \<open>
  \<open>for (let attempt = 0; attempt < MAX_RETRIES; attempt++)\<close>. The result is
  \<open>Some\<close> response when an iteration returns and \<open>None\<close> when control leaves the
  loop through its condition.
\<close>

function attempt_loop :: "retry_policy \<Rightarrow> env \<Rightarrow> nat \<Rightarrow> world \<Rightarrow> http_response option \<times> world" where
  "attempt_loop p e attempt w =
     (if attempt < MAX_RETRIES p then
        (case attempt_body p e attempt w of
           (Return r, w') \<Rightarrow> (Some r, w')
         | (Continue, w') \<Rightarrow> attempt_loop p e (attempt + 1) w')
      else (None, w))"
  by pat_completeness auto
termination
  by (relation "measure (\<lambda>(p, e, attempt, w). MAX_RETRIES p - attempt)") auto

declare attempt_loop.simps [simp del]

text \<open>\<open>!apiKey\<close>: the variable is unset or the empty string.\<close>

definition no_key :: "env \<Rightarrow> bool" where
  "no_key e = (case GEMINI_API_KEY e of None \<Rightarrow> True | Some k \<Rightarrow> k = [])"

text \<open>The outer \<open>try\<close> block of the Vercel handler; \<open>Inl\<close> is a thrown error.\<close>

definition try_block :: "request \<Rightarrow> env \<Rightarrow> world \<Rightarrow> (string + http_response) \<times> world" where
  "try_block req e w =
     (case req_body req of
        Inl m \<Rightarrow> (Inl m, w)
      | Inr b \<Rightarrow>
          if no_key e
          then (Inr \<lparr>statusCode = 500,
                     body = Json_obj [(''error'', ''API Key not configured'')]\<rparr>, w)
          else
            (case attempt_loop policy e 0 w of
               (Some r, w') \<Rightarrow> (Inr r, w')
             | (None, w') \<Rightarrow>
                 (Inr \<lparr>statusCode = 504,
                       body = Json_obj [(''error'', ''Gateway timeout''),
                                        (''message'', ''Maximum retries exceeded'')]\<rparr>, w')))"

definition handler :: "request \<Rightarrow> env \<Rightarrow> http_response \<times> world" where
  "handler req e =
     (if req_method req = ''OPTIONS'' then (\<lparr>statusCode = 200, body = End\<rparr>, world0)
      else if req_method req \<noteq> ''POST''
      then (\<lparr>statusCode = 405, body = Json_obj [(''error'', ''Method not allowed'')]\<rparr>, world0)
      else
        (case try_block req e world0 of
           (Inl m, w) \<Rightarrow>
             (\<lparr>statusCode = 500,
               body = Json_obj [(''error'', ''Internal server error''), (''message'', m)]\<rparr>, w)
         | (Inr r, w) \<Rightarrow> (r, w)))"

subsection \<open>The Netlify handler\<close>

text \<open>
  \<open>netlify/functions/gemini-proxy.js\<close>: the same gate on the method, then one
  \<open>fetch\<close> with no timer and no retry. Every failure inside the \<open>try\<close> block is
  thrown and answered by the \<open>catch\<close> block with status 500 and the error's message.
  \<open>event_body\<close> is \<open>JSON.parse(event.body)\<close>, \<open>Inl\<close> the message it throws.
\<close>

record event =
  httpMethod :: string
  event_body :: "string + req_body"

definition netlify_try :: "event \<Rightarrow> env \<Rightarrow> world \<Rightarrow> (string + http_response) \<times> world" where
  "netlify_try ev e w =
     (case event_body ev of
        Inl m \<Rightarrow> (Inl m, w)
      | Inr b \<Rightarrow>
          if no_key e then (Inl ''API Key not configured'', w)
          else
            (let w1 = w\<lparr>calls := calls w + 1\<rparr>
             in case upstream e 0 of
                  Rejects f \<Rightarrow> (Inl (message f), w1)
                | Resolves r \<Rightarrow>
                    if \<not> ok r then
                      (case resp_text r of
                         Inl m \<Rightarrow> (Inl m, w1)
                       | Inr errorText \<Rightarrow>
                           (Inl (''Gemini API error: '' @ string_of_nat (status r) @ '' ''
                                 @ errorText), w1))
                    else
                      (case resp_json r of
                         Inl m \<Rightarrow> (Inl m, w1)
                       | Inr result \<Rightarrow>
                           (Inr \<lparr>statusCode = 200, body = Json_value result\<rparr>, w1))))"

definition netlify_handler :: "event \<Rightarrow> env \<Rightarrow> http_response \<times> world" where
  "netlify_handler ev e =
     (if httpMethod ev = ''OPTIONS'' then (\<lparr>statusCode = 200, body = End\<rparr>, world0)
      else if httpMethod ev \<noteq> ''POST''
      then (\<lparr>statusCode = 405, body = Json_obj [(''error'', ''Method not allowed'')]\<rparr>, world0)
      else
        (case netlify_try ev e world0 of
           (Inl m, w) \<Rightarrow> (\<lparr>statusCode = 500, body = Json_obj [(''error'', m)]\<rparr>, w)
         | (Inr r, w) \<Rightarrow> (r, w)))"

subsection \<open>Results and sample inputs\<close>

text \<open>
  The two kinds of terminal outcome: a success is status 200 with the upstream's parsed
  body (or the empty answer to a preflight), a structured failure is another status with
  an object that has an \<open>error\<close> field.
\<close>

definition is_success :: "http_response \<Rightarrow> bool" where
  "is_success r =
     (statusCode r = 200 \<and> (case body r of Json_obj kv \<Rightarrow> False | _ \<Rightarrow> True))"

definition is_failure :: "http_response \<Rightarrow> bool" where
  "is_failure r =
     (statusCode r \<noteq> 200 \<and>
      (case body r of Json_obj kv \<Rightarrow> map_of kv ''error'' \<noteq> None | _ \<Rightarrow> False))"

text \<open>
  The outcomes the retry policy counts as transient when it sees them: a rejected
  \<open>fetch\<close>, or a response with status 429 or at least 500.
\<close>

fun retryable :: "fetch_outcome \<Rightarrow> bool" where
  "retryable (Rejects f) = True"
| "retryable (Resolves r) = (status r = 429 \<or> 500 \<le> status r)"

definition post_req :: request where
  "post_req = \<lparr>req_method = ''POST'',
               req_body = Inr \<lparr>userInput = ''hi'', systemPrompt = ''be brief'',
                               useSearch = False\<rparr>\<rparr>"

definition get_req :: request where
  "get_req = post_req\<lparr>req_method := ''GET''\<rparr>"

definition post_event :: event where
  "post_event = \<lparr>httpMethod = ''POST'',
                 event_body = Inr \<lparr>userInput = ''hi'', systemPrompt = ''be brief'',
                                   useSearch = False\<rparr>\<rparr>"

definition resp :: "nat \<Rightarrow> string \<Rightarrow> response" where
  "resp s b = \<lparr>status = s, resp_json = Inl ''Unexpected token'', resp_text = Inr b\<rparr>"

definition resp_ok :: "json \<Rightarrow> response" where
  "resp_ok j = \<lparr>status = 200, resp_json = Inr j, resp_text = Inr j\<rparr>"

definition env_of :: "(nat \<Rightarrow> fetch_outcome) \<Rightarrow> env" where
  "env_of u = \<lparr>GEMINI_API_KEY = Some ''k'', upstream = u, random = (\<lambda>i. 1 / 2)\<rparr>"

definition no_key_env :: env where
  "no_key_env = (env_of (\<lambda>i. Resolves (resp_ok ''{}'')))\<lparr>GEMINI_API_KEY := None\<rparr>"

text \<open>
  Sample environments: five responses with status 500; a 200 response whose body is not
  JSON followed by a proper one; a refused connection followed by a proper response; four
  network failures and then a timeout; a 404 followed by 503s.
\<close>

definition env_500s :: env where
  "env_500s = env_of (\<lambda>i. Resolves (resp 500 ''boom''))"

definition env_html_then_ok :: env where
  "env_html_then_ok =
     env_of (\<lambda>i. if i = 0 then Resolves (resp 200 ''<html>'') else Resolves (resp_ok ''{}''))"

definition env_refused_then_ok :: env where
  "env_refused_then_ok =
     env_of (\<lambda>i. if i = 0 then Rejects (Failed ''fetch failed'') else Resolves (resp_ok ''{}''))"

definition outage :: "nat \<Rightarrow> fetch_error" where
  "outage i = (if i < 4 then Failed ''fetch failed'' else Aborted ''This operation was aborted'')"

definition env_outage :: env where
  "env_outage = env_of (\<lambda>i. Rejects (outage i))"

definition env_404_then_503 :: env where
  "env_404_then_503 =
     env_of (\<lambda>i. if i = 0 then Resolves (resp 404 ''not found'') else Resolves (resp 503 ''busy''))"

text \<open>
  A 404 whose body cannot be read (the connection breaks after the headers), followed by
  a proper response; and 503s met by the largest value \<open>Math.random()\<close> can yield.
\<close>

definition unread_404 :: response where
  "unread_404 = \<lparr>status = 404, resp_json = Inl ''terminated'', resp_text = Inl ''terminated''\<rparr>"

definition env_404_unread_then_ok :: env where
  "env_404_unread_then_ok =
     env_of (\<lambda>i. if i = 0 then Resolves unread_404 else Resolves (resp_ok ''{}''))"

definition env_503_top_draw :: env where
  "env_503_top_draw =
     (env_of (\<lambda>i. Resolves (resp 503 ''busy'')))\<lparr>random := (\<lambda>i. 1 - 1 / 2 ^ 52)\<rparr>"

text \<open>A rational is a double when rounding leaves it as it is.\<close>

definition representable :: "rat \<Rightarrow> bool" where
  "representable x = (fl x = x)"

section \<open>Properties\<close>

subsection \<open>Rounding to a double is monotone\<close>

lemma scale2_powi: "scale2 k x = x * power_int 2 k"
  by (simp add: scale2_def power_int_def field_simps)

lemma rne_bounds: "\<lfloor>x\<rfloor> \<le> rne x \<and> rne x \<le> \<lfloor>x\<rfloor> + 1"
  by (simp add: rne_def Let_def)

lemma rne_of_int [simp]: "rne (of_int n) = n"
  by (simp add: rne_def)

lemma rne_0 [simp]: "rne 0 = 0"
  using rne_of_int [of 0] by simp

lemma powi_add: "power_int (2::rat) (a + b) = power_int 2 a * power_int 2 b"
  by (simp add: power_int_add)

lemma powi_diff: "power_int (2::rat) a * power_int 2 (- b) = power_int 2 (a - b)"
  using powi_add [of a "- b"] by simp

lemma powi_cancel: "power_int (2::rat) (a - b) * power_int 2 b = power_int 2 a"
  using powi_add [of "a - b" b] by simp

lemma rne_mono: "x \<le> y \<Longrightarrow> rne x \<le> rne y"
proof (cases "\<lfloor>x\<rfloor> = \<lfloor>y\<rfloor>")
  case True
  assume "x \<le> y"
  with True show ?thesis by (auto simp: rne_def Let_def)
next
  case False
  assume "x \<le> y"
  then have "\<lfloor>x\<rfloor> \<le> \<lfloor>y\<rfloor>" by (rule floor_mono)
  with False have "\<lfloor>x\<rfloor> + 1 \<le> \<lfloor>y\<rfloor>" by simp
  with rne_bounds [of x] rne_bounds [of y] show ?thesis by linarith
qed

lemma halvings_bounds: "1 \<le> x \<Longrightarrow> 2 ^ halvings x \<le> x \<and> x < 2 ^ Suc (halvings x)"
proof (induction x rule: halvings.induct)
  case (1 x)
  show ?case
  proof (cases "2 \<le> x")
    case True
    then have "1 \<le> x / 2" by simp
    with 1 True have "2 ^ halvings (x / 2) \<le> x / 2 \<and> x / 2 < 2 ^ Suc (halvings (x / 2))" by blast
    moreover have "halvings x = Suc (halvings (x / 2))" using True by (subst halvings.simps) simp
    ultimately show ?thesis by (simp add: field_simps)
  next
    case False
    then have "halvings x = 0" by (subst halvings.simps) simp
    with False 1 show ?thesis by simp
  qed
qed

lemma doublings_bounds: "0 < x \<Longrightarrow> x < 1 \<Longrightarrow> 1 \<le> x * 2 ^ doublings x \<and> x * 2 ^ doublings x < 2"
proof (induction x rule: doublings.induct)
  case (1 x)
  have d: "doublings x = Suc (doublings (2 * x))" using 1(2,3) by (subst doublings.simps) simp
  show ?case
  proof (cases "2 * x < 1")
    case True
    with 1 have "1 \<le> 2 * x * 2 ^ doublings (2 * x) \<and> 2 * x * 2 ^ doublings (2 * x) < 2" by simp
    with d show ?thesis by (simp add: mult.commute mult.left_commute)
  next
    case False
    then have "doublings (2 * x) = 0" by (subst doublings.simps) simp
    with d False 1(3) show ?thesis by simp
  qed
qed

lemma exponent_bounds:
  assumes "0 < x"
  shows "power_int 2 (exponent x) \<le> x \<and> x < power_int 2 (exponent x + 1)"
proof (cases "1 \<le> x")
  case True
  have "power_int (2::rat) (int (halvings x) + 1) = 2 ^ Suc (halvings x)"
    by (simp add: power_int_add)
  with halvings_bounds [OF True] True show ?thesis by (simp add: exponent_def)
next
  case False
  then have lt: "x < 1" by simp
  let ?n = "doublings x"
  from doublings_bounds [OF assms lt] have b: "1 \<le> x * 2 ^ ?n" "x * 2 ^ ?n < 2" by simp_all
  have p1: "power_int (2::rat) (- int ?n) = 1 / 2 ^ ?n"
    by (simp add: power_int_minus_divide)
  have p2: "power_int (2::rat) (- int ?n + 1) = 2 / 2 ^ ?n"
    using powi_add [of "- int ?n" 1] by (simp add: power_int_minus_divide)
  from b have "1 / 2 ^ ?n \<le> x" "x < 2 / 2 ^ ?n" by (simp_all add: field_simps)
  with p1 p2 False show ?thesis by (simp add: exponent_def)
qed

lemma exponent_mono:
  assumes "0 < x" and "x \<le> y"
  shows "exponent x \<le> exponent y"
proof (rule ccontr)
  assume "\<not> exponent x \<le> exponent y"
  then have "exponent y + 1 \<le> exponent x" by simp
  then have "power_int (2::rat) (exponent y + 1) \<le> power_int 2 (exponent x)"
    by (intro power_int_increasing) simp_all
  moreover have "0 < y" using assms by simp
  ultimately show False
    using exponent_bounds [OF assms(1)] exponent_bounds [OF \<open>0 < y\<close>] assms(2) by linarith
qed

lemma fl_pos_powi:
  "fl_pos x = of_int (rne (x * power_int 2 (- quantum x))) * power_int 2 (quantum x)"
  by (simp add: fl_pos_def scale2_powi)

lemma fl_pos_0 [simp]: "fl_pos 0 = 0"
  by (simp add: fl_pos_powi)

lemma fl_pos_nonneg: "0 \<le> x \<Longrightarrow> 0 \<le> fl_pos x"
proof -
  assume "0 \<le> x"
  then have "0 \<le> x * power_int 2 (- quantum x)" by simp
  from rne_mono [OF this] have "0 \<le> rne (x * power_int 2 (- quantum x))" by simp
  then show ?thesis by (simp add: fl_pos_powi)
qed

lemma powi_of_int: "0 \<le> k \<Longrightarrow> power_int (2::rat) k = of_int (2 ^ nat k)"
  by (simp add: power_int_def)

lemma fl_pos_le_power:
  assumes "x \<le> power_int 2 E" and "quantum x \<le> E"
  shows "fl_pos x \<le> power_int 2 E"
proof -
  let ?q = "quantum x"
  have "x * power_int 2 (- ?q) \<le> power_int 2 E * power_int 2 (- ?q)"
    using assms(1) by (intro mult_right_mono) simp_all
  also have "\<dots> = power_int 2 (E - ?q)" by (rule powi_diff)
  also have "\<dots> = of_int (2 ^ nat (E - ?q))" using assms(2) by (simp add: powi_of_int)
  finally have "rne (x * power_int 2 (- ?q)) \<le> 2 ^ nat (E - ?q)"
    using rne_mono rne_of_int by metis
  then have "(of_int (rne (x * power_int 2 (- ?q))) :: rat) \<le> of_int (2 ^ nat (E - ?q))"
    by (simp only: of_int_le_iff)
  then have "fl_pos x \<le> of_int (2 ^ nat (E - ?q)) * power_int 2 ?q"
    unfolding fl_pos_powi by (intro mult_right_mono) simp_all
  also have "\<dots> = power_int 2 (E - ?q) * power_int 2 ?q" using assms(2) by (simp add: powi_of_int)
  also have "\<dots> = power_int 2 E" by (rule powi_cancel)
  finally show ?thesis .
qed

lemma fl_pos_ge_power:
  assumes "power_int 2 E \<le> x" and "quantum x \<le> E"
  shows "power_int 2 E \<le> fl_pos x"
proof -
  let ?q = "quantum x"
  have "power_int 2 E * power_int 2 (- ?q) \<le> x * power_int 2 (- ?q)"
    using assms(1) by (intro mult_right_mono) simp_all
  moreover have "power_int 2 E * power_int (2::rat) (- ?q) = power_int 2 (E - ?q)"
    by (rule powi_diff)
  moreover have "power_int (2::rat) (E - ?q) = of_int (2 ^ nat (E - ?q))"
    using assms(2) by (simp add: powi_of_int)
  ultimately have "of_int (2 ^ nat (E - ?q)) \<le> x * power_int 2 (- ?q)" by simp
  then have "2 ^ nat (E - ?q) \<le> rne (x * power_int 2 (- ?q))"
    using rne_mono rne_of_int by metis
  then have "(of_int (2 ^ nat (E - ?q)) :: rat) \<le> of_int (rne (x * power_int 2 (- ?q)))"
    by (simp only: of_int_le_iff)
  then have "of_int (2 ^ nat (E - ?q)) * power_int 2 ?q \<le> fl_pos x"
    unfolding fl_pos_powi by (intro mult_right_mono) simp_all
  moreover have "of_int (2 ^ nat (E - ?q)) * power_int (2::rat) ?q = power_int 2 (E - ?q) * power_int 2 ?q"
    using assms(2) by (simp add: powi_of_int)
  moreover have "power_int (2::rat) (E - ?q) * power_int 2 ?q = power_int 2 E"
    by (rule powi_cancel)
  ultimately show ?thesis by simp
qed

lemma fl_pos_mono:
  assumes "0 \<le> x" and "x \<le> y"
  shows "fl_pos x \<le> fl_pos y"
proof (cases "x = 0")
  case True
  with assms fl_pos_nonneg [of y] show ?thesis by simp
next
  case False
  with assms have pos: "0 < x" "0 < y" by simp_all
  have e: "exponent x \<le> exponent y" using pos(1) assms(2) by (rule exponent_mono)
  then have q: "quantum x \<le> quantum y" by (simp add: quantum_def)
  show ?thesis
  proof (cases "quantum x = quantum y")
    case True
    have "x * power_int 2 (- quantum y) \<le> y * power_int 2 (- quantum y)"
      using assms(2) by (intro mult_right_mono) simp_all
    from rne_mono [OF this] have
      "(of_int (rne (x * power_int 2 (- quantum y))) :: rat)
         \<le> of_int (rne (y * power_int 2 (- quantum y)))"
      by (simp only: of_int_le_iff)
    then show ?thesis unfolding fl_pos_powi True by (intro mult_right_mono) simp_all
  next
    case False
    with q have lt: "quantum x < quantum y" by simp
    then have qy: "quantum y = exponent y - 52" and ex: "exponent x + 1 \<le> exponent y"
      by (auto simp: quantum_def max_def split: if_splits)
    let ?E = "exponent y"
    have "x \<le> power_int 2 (exponent x + 1)" using exponent_bounds [OF pos(1)] by simp
    also have "\<dots> \<le> power_int 2 ?E" using ex by (intro power_int_increasing) simp_all
    finally have "x \<le> power_int 2 ?E" .
    moreover have "quantum x \<le> ?E" using lt qy by simp
    ultimately have "fl_pos x \<le> power_int 2 ?E" by (rule fl_pos_le_power)
    moreover have "power_int 2 ?E \<le> fl_pos y"
      using exponent_bounds [OF pos(2)] qy by (intro fl_pos_ge_power) simp_all
    ultimately show ?thesis by simp
  qed
qed

lemma fl_0 [simp]: "fl 0 = 0"
  by (simp add: fl_def)

lemma fl_mono: "x \<le> y \<Longrightarrow> fl x \<le> fl y"
proof -
  assume le: "x \<le> y"
  consider "y < 0" | "x < 0" "0 \<le> y" | "0 \<le> x" by linarith
  then show ?thesis
  proof cases
    case 1
    with le have "0 \<le> - y" "- y \<le> - x" "x < 0" by simp_all
    with fl_pos_mono [of "- y" "- x"] 1 show ?thesis by (simp add: fl_def)
  next
    case 2
    with fl_pos_nonneg [of "- x"] fl_pos_nonneg [of y] show ?thesis by (simp add: fl_def)
  next
    case 3
    with le fl_pos_mono [of x y] show ?thesis by (simp add: fl_def)
  qed
qed

lemma floor_rat_numeral:
  "\<lfloor>(numeral a :: rat) / numeral b\<rfloor> = numeral a div numeral b"
  using floor_divide_of_int_eq [of "numeral a" "numeral b", where ?'a = rat] by simp

lemmas fl_eval = fl_def fl_pos_def quantum_def scale2_def exponent_def halvings.simps
  doublings.simps rne_def Let_def floor_rat_numeral

subsection \<open>Unfolding the loop and the loop body\<close>

lemma loop_Return:
  "attempt < MAX_RETRIES p \<Longrightarrow> attempt_body p e attempt w = (Return r, w') \<Longrightarrow>
   attempt_loop p e attempt w = (Some r, w')"
  by (simp add: attempt_loop.simps)

lemma loop_Continue:
  "attempt < MAX_RETRIES p \<Longrightarrow> attempt_body p e attempt w = (Continue, w') \<Longrightarrow>
   attempt_loop p e attempt w = attempt_loop p e (Suc attempt) w'"
  by (simp add: attempt_loop.simps)

lemma loop_exit: "\<not> attempt < MAX_RETRIES p \<Longrightarrow> attempt_loop p e attempt w = (None, w)"
  by (simp add: attempt_loop.simps)

lemma retryable_not_ok: "status r = 429 \<or> 500 \<le> status r \<Longrightarrow> \<not> ok r"
  by (auto simp: ok_def)

lemma body_success:
  "upstream e a = Resolves r \<Longrightarrow> ok r \<Longrightarrow> resp_json r = Inr j \<Longrightarrow>
   attempt_body p e a w =
     (Return \<lparr>statusCode = 200, body = Json_value j\<rparr>, w\<lparr>calls := calls w + 1\<rparr>)"
  by (simp add: attempt_body_def)

lemma body_unparsed:
  "upstream e a = Resolves r \<Longrightarrow> ok r \<Longrightarrow> resp_json r = Inl m \<Longrightarrow>
   attempt_body p e a w = on_catch p e a m (w\<lparr>calls := calls w + 1\<rparr>)"
  by (simp add: attempt_body_def)

lemma body_retry_status:
  "upstream e a = Resolves r \<Longrightarrow> status r = 429 \<or> 500 \<le> status r \<Longrightarrow>
   a < MAX_RETRIES p - 1 \<Longrightarrow>
   attempt_body p e a w =
     (Continue, w\<lparr>calls := calls w + 1, delays := delays w @ [retry_delay p e a]\<rparr>)"
  using retryable_not_ok [of r] by (simp add: attempt_body_def backoff_def)

lemma body_terminal:
  "upstream e a = Resolves r \<Longrightarrow> \<not> ok r \<Longrightarrow>
   \<not> ((status r = 429 \<or> 500 \<le> status r) \<and> a < MAX_RETRIES p - 1) \<Longrightarrow>
   resp_text r = Inr b \<Longrightarrow>
   attempt_body p e a w =
     (Return \<lparr>statusCode = status r,
              body = Json_obj [(''error'', ''Gemini API error: '' @ string_of_nat (status r)),
                               (''details'', b)]\<rparr>, w\<lparr>calls := calls w + 1\<rparr>)"
  by (auto simp: attempt_body_def)

lemma body_aborted:
  "upstream e a = Rejects (Aborted m) \<Longrightarrow>
   attempt_body p e a w = on_catch p e a m (w\<lparr>calls := calls w + 1\<rparr>)"
  by (simp add: attempt_body_def)

lemma body_failed:
  "upstream e a = Rejects (Failed m) \<Longrightarrow>
   attempt_body p e a w =
     on_catch p e a m (w\<lparr>pending := a # pending w, calls := calls w + 1\<rparr>)"
  by (simp add: attempt_body_def)

lemma on_catch_retry:
  "a < MAX_RETRIES p - 1 \<Longrightarrow> on_catch p e a m w = (Continue, backoff p e a w)"
  by (simp add: on_catch_def)

lemma on_catch_last:
  "\<not> a < MAX_RETRIES p - 1 \<Longrightarrow>
   on_catch p e a m w =
     (Return \<lparr>statusCode = 504,
              body = Json_obj [(''error'', ''Gateway timeout''),
                               (''message'', ''Failed to get response from Gemini API''),
                               (''details'', m)]\<rparr>, w)"
  by (simp add: on_catch_def)

lemma calls_backoff [simp]: "calls (backoff p e a w) = calls w"
  by (simp add: backoff_def)

lemma pending_backoff [simp]: "pending (backoff p e a w) = pending w"
  by (simp add: backoff_def)

lemma delays_backoff [simp]: "delays (backoff p e a w) = delays w @ [retry_delay p e a]"
  by (simp add: backoff_def)

lemma calls_on_catch [simp]: "calls (snd (on_catch p e a m w)) = calls w"
  by (simp add: on_catch_def)

lemma body_rejects:
  "upstream e a = Rejects f \<Longrightarrow>
   \<exists>w2. attempt_body p e a w = on_catch p e a (message f) w2 \<and> calls w2 = calls w + 1
     \<and> delays w2 = delays w"
proof (cases f)
  case (Aborted m)
  assume "upstream e a = Rejects f"
  with Aborted have "attempt_body p e a w = on_catch p e a (message f) (w\<lparr>calls := calls w + 1\<rparr>)"
    by (simp add: body_aborted)
  then show ?thesis by (intro exI [of _ "w\<lparr>calls := calls w + 1\<rparr>"]) simp
next
  case (Failed m)
  assume "upstream e a = Rejects f"
  with Failed have "attempt_body p e a w =
      on_catch p e a (message f) (w\<lparr>pending := a # pending w, calls := calls w + 1\<rparr>)"
    by (simp add: body_failed)
  then show ?thesis
    by (intro exI [of _ "w\<lparr>pending := a # pending w, calls := calls w + 1\<rparr>"]) simp
qed

lemma calls_attempt_body: "calls (snd (attempt_body p e a w)) = calls w + 1"
  by (simp add: attempt_body_def Let_def split: fetch_outcome.split fetch_error.split sum.split)

lemma last_attempt_returns:
  "\<not> a < MAX_RETRIES p - 1 \<Longrightarrow> fst (attempt_body p e a w) \<noteq> Continue"
  by (simp add: attempt_body_def on_catch_def Let_def
      split: fetch_outcome.split fetch_error.split sum.split)

lemma loop_returns: "a < MAX_RETRIES p \<Longrightarrow> fst (attempt_loop p e a w) \<noteq> None"
proof (induction "MAX_RETRIES p - a" arbitrary: a w)
  case 0
  then show ?case by simp
next
  case (Suc k)
  obtain s w' where b: "attempt_body p e a w = (s, w')" by (cases "attempt_body p e a w")
  show ?case
  proof (cases s)
    case (Return r)
    with b Suc.prems show ?thesis by (simp add: loop_Return)
  next
    case Continue
    with b last_attempt_returns [of a p e w] have "a < MAX_RETRIES p - 1" by auto
    then have "Suc a < MAX_RETRIES p" and "k = MAX_RETRIES p - Suc a" using Suc.hyps by auto
    then have "fst (attempt_loop p e (Suc a) w') \<noteq> None" using Suc.hyps(1) by blast
    with b Continue Suc.prems show ?thesis by (simp add: loop_Continue)
  qed
qed

lemma loop_calls_le: "calls (snd (attempt_loop p e a w)) \<le> calls w + (MAX_RETRIES p - a)"
proof (induction "MAX_RETRIES p - a" arbitrary: a w)
  case 0
  then have "\<not> a < MAX_RETRIES p" by simp
  then show ?case by (simp add: loop_exit)
next
  case (Suc k)
  then have lt: "a < MAX_RETRIES p" by simp
  obtain s w' where b: "attempt_body p e a w = (s, w')" by (cases "attempt_body p e a w")
  then have c: "calls w' = calls w + 1" using calls_attempt_body [of p e a w] by simp
  show ?case
  proof (cases s)
    case (Return r)
    with b lt c show ?thesis by (simp add: loop_Return)
  next
    case Continue
    have "k = MAX_RETRIES p - Suc a" using Suc.hyps by simp
    then have "calls (snd (attempt_loop p e (Suc a) w')) \<le> calls w' + (MAX_RETRIES p - Suc a)"
      using Suc.hyps(1) by blast
    with b Continue lt c show ?thesis by (simp add: loop_Continue)
  qed
qed

lemma rejects_loop:
  assumes "a < MAX_RETRIES p"
    and "\<forall>i. a \<le> i \<and> i < MAX_RETRIES p \<longrightarrow> upstream e i = Rejects (f i)"
  shows "fst (attempt_loop p e a w) =
           Some \<lparr>statusCode = 504,
                 body = Json_obj [(''error'', ''Gateway timeout''),
                                  (''message'', ''Failed to get response from Gemini API''),
                                  (''details'', message (f (MAX_RETRIES p - 1)))]\<rparr>
         \<and> calls (snd (attempt_loop p e a w)) = calls w + (MAX_RETRIES p - a)"
  using assms
proof (induction "MAX_RETRIES p - a" arbitrary: a w)
  case 0
  then show ?case by simp
next
  case (Suc k)
  have up: "upstream e a = Rejects (f a)" using Suc.prems by simp
  from body_rejects [OF up, of p w] obtain w2
    where b: "attempt_body p e a w = on_catch p e a (message (f a)) w2"
      and c: "calls w2 = calls w + 1" by blast
  show ?case
  proof (cases "a < MAX_RETRIES p - 1")
    case True
    then have b': "attempt_body p e a w = (Continue, backoff p e a w2)"
      using b by (simp add: on_catch_retry)
    have k: "k = MAX_RETRIES p - Suc a" and lt: "Suc a < MAX_RETRIES p"
      using Suc.hyps True by auto
    have all: "\<forall>i. Suc a \<le> i \<and> i < MAX_RETRIES p \<longrightarrow> upstream e i = Rejects (f i)"
      using Suc.prems by simp
    from Suc.hyps(1) [OF k lt all, of "backoff p e a w2"] b' Suc.prems(1) c lt
    show ?thesis by (simp add: loop_Continue)
  next
    case False
    then have a: "MAX_RETRIES p - 1 = a" "MAX_RETRIES p - a = 1" using Suc.prems(1) by auto
    from False b have "attempt_body p e a w =
        (Return \<lparr>statusCode = 504,
                 body = Json_obj [(''error'', ''Gateway timeout''),
                                  (''message'', ''Failed to get response from Gemini API''),
                                  (''details'', message (f a))]\<rparr>, w2)"
      by (simp add: on_catch_last)
    from loop_Return [OF Suc.prems(1) this] c a show ?thesis by simp
  qed
qed

lemmas eval_defs = handler_def try_block_def no_key_def policy_def attempt_loop.simps
      attempt_body_def ok_def backoff_def retry_delay_def world0_def string_of_nat.simps
      on_catch_def post_req_def env_of_def resp_def resp_ok_def fl_eval

lemma loop_result_from_body:
  "fst (attempt_loop p e a w) = Some r \<Longrightarrow> \<exists>a' w0. fst (attempt_body p e a' w0) = Return r"
proof (induction "MAX_RETRIES p - a" arbitrary: a w)
  case 0
  then have "\<not> a < MAX_RETRIES p" by simp
  with 0 show ?case by (simp add: loop_exit)
next
  case (Suc k)
  then have lt: "a < MAX_RETRIES p" by simp
  obtain s w' where b: "attempt_body p e a w = (s, w')" by (cases "attempt_body p e a w")
  show ?case
  proof (cases s)
    case (Return r')
    with b lt Suc.prems have "r' = r" by (simp add: loop_Return)
    with b Return have "fst (attempt_body p e a w) = Return r" by simp
    then show ?thesis by blast
  next
    case Continue
    have k: "k = MAX_RETRIES p - Suc a" using Suc.hyps by simp
    from b Continue lt Suc.prems have "fst (attempt_loop p e (Suc a) w') = Some r"
      by (simp add: loop_Continue)
    from Suc.hyps(1) [OF k this] show ?thesis .
  qed
qed

lemma body_return_outcome:
  "fst (attempt_body p e a w) = Return r \<Longrightarrow> is_success r \<noteq> is_failure r"
  by (auto simp: attempt_body_def on_catch_def Let_def is_success_def is_failure_def ok_def
      split: fetch_outcome.splits fetch_error.splits sum.splits if_splits)

lemma body_return_not_exceeded:
  "fst (attempt_body p e a w) = Return r \<Longrightarrow>
   body r \<noteq> Json_obj [(''error'', ''Gateway timeout''), (''message'', ''Maximum retries exceeded'')]"
  by (auto simp: attempt_body_def on_catch_def Let_def
      split: fetch_outcome.splits fetch_error.splits sum.splits if_splits)

lemma policy_loop_returns: "fst (attempt_loop policy e 0 w) \<noteq> None"
  by (rule loop_returns) (simp add: policy_def)

lemma retry_continues:
  assumes "retryable (upstream e a)" and "a < MAX_RETRIES p - 1"
  shows "fst (attempt_body p e a w) = Continue
         \<and> delays (snd (attempt_body p e a w)) = delays w @ [retry_delay p e a]"
proof (cases "upstream e a")
  case (Resolves r)
  with assms have "status r = 429 \<or> 500 \<le> status r" by simp
  from body_retry_status [OF Resolves this assms(2), of w] show ?thesis by simp
next
  case (Rejects f)
  from body_rejects [OF Rejects, of p w] obtain w2
    where "attempt_body p e a w = on_catch p e a (message f) w2" and "delays w2 = delays w"
    by blast
  with assms(2) show ?thesis by (simp add: on_catch_retry)
qed

subsection \<open>The claims\<close>

text \<open>
  C1. The claim: when every attempt receives a retryable status, the handler answers 504
  with the generic \<open>Maximum retries exceeded\<close> and no upstream body. The code does
  not: in the last iteration the test \<open>attempt < MAX_RETRIES - 1\<close> fails, control
  falls through to the branch commented \<open>Other errors (4xx)\<close>, and the handler
  answers with the upstream's own status and body. Evaluated on five responses with
  status 500 and body \<open>boom\<close>: five calls are made, and the answer is status 500 with
  \<open>details = boom\<close>.
\<close>

theorem handler_five_500s:
  "handler post_req env_500s =
     (\<lparr>statusCode = 500,
       body = Json_obj [(''error'', ''Gemini API error: 500''), (''details'', ''boom'')]\<rparr>,
      \<lparr>calls = 5, pending = [], delays = [260, 460, 860, 1660]\<rparr>)"
  by (simp add: eval_defs env_500s_def)

text \<open>
  C2, as claimed, fails for a response whose body cannot be read: the handler awaits
  \<open>response.text()\<close> inside the inner \<open>try\<close>, so its rejection lands in the
  \<open>catch\<close> block and the attempt is retried. Here attempt 0 receives a 404 whose body
  read fails: the loop body continues, and the handler makes a second call after a backoff
  and answers 200.
\<close>

theorem status_unread_counterexample:
  "0 < MAX_RETRIES policy \<and> upstream env_404_unread_then_ok 0 = Resolves unread_404
   \<and> status unread_404 = 404 \<and> \<not> ok unread_404
   \<and> fst (attempt_body policy env_404_unread_then_ok 0 world0) = Continue
   \<and> handler post_req env_404_unread_then_ok =
       (\<lparr>statusCode = 200, body = Json_value ''{}''\<rparr>,
        \<lparr>calls = 2, pending = [], delays = [260]\<rparr>)"
  by (simp add: eval_defs env_404_unread_then_ok_def unread_404_def)

text \<open>
  C2, amended. A response with status 429 or at least 500, on an attempt that is not the
  last, makes the loop body continue: the loop goes on with the next attempt. A response
  with any other status outside 200..299 whose body can be read, as \<open>b\<close>, ends the loop
  at once, on any attempt: the result carries the upstream status and \<open>b\<close>, and the
  world after it differs from the world before only by this one call. In particular a 404
  with a readable body on attempt 0 makes the handler answer 404 with that body after
  exactly one call.
\<close>

theorem status_classification:
  "(a < MAX_RETRIES p - 1 \<and> upstream e a = Resolves r \<and> (status r = 429 \<or> 500 \<le> status r)
      \<longrightarrow> fst (attempt_body p e a w) = Continue
          \<and> attempt_loop p e a w = attempt_loop p e (Suc a) (snd (attempt_body p e a w)))
   \<and> (a < MAX_RETRIES p \<and> upstream e a = Resolves r \<and> \<not> ok r
        \<and> status r \<noteq> 429 \<and> status r < 500 \<and> resp_text r = Inr b
      \<longrightarrow> attempt_loop p e a w =
            (Some \<lparr>statusCode = status r,
                   body = Json_obj [(''error'', ''Gemini API error: '' @ string_of_nat (status r)),
                                    (''details'', b)]\<rparr>,
             w\<lparr>calls := calls w + 1\<rparr>))
   \<and> (req_method req = ''POST'' \<and> req_body req = Inr rb \<and> \<not> no_key e
        \<and> upstream e 0 = Resolves r \<and> status r = 404 \<and> resp_text r = Inr b
      \<longrightarrow> handler req e =
            (\<lparr>statusCode = 404,
              body = Json_obj [(''error'', ''Gemini API error: 404''), (''details'', b)]\<rparr>,
             \<lparr>calls = 1, pending = [], delays = []\<rparr>))"
proof (intro conjI impI)
  assume h: "a < MAX_RETRIES p - 1 \<and> upstream e a = Resolves r
             \<and> (status r = 429 \<or> 500 \<le> status r)"
  then have b: "attempt_body p e a w =
      (Continue, w\<lparr>calls := calls w + 1, delays := delays w @ [retry_delay p e a]\<rparr>)"
    by (simp add: body_retry_status)
  then show "fst (attempt_body p e a w) = Continue" by simp
  from h have "a < MAX_RETRIES p" by linarith
  from loop_Continue [OF this b] b
  show "attempt_loop p e a w = attempt_loop p e (Suc a) (snd (attempt_body p e a w))" by simp
next
  assume h: "a < MAX_RETRIES p \<and> upstream e a = Resolves r \<and> \<not> ok r
        \<and> status r \<noteq> 429 \<and> status r < 500 \<and> resp_text r = Inr b"
  then have "attempt_body p e a w =
     (Return \<lparr>statusCode = status r,
              body = Json_obj [(''error'', ''Gemini API error: '' @ string_of_nat (status r)),
                               (''details'', b)]\<rparr>, w\<lparr>calls := calls w + 1\<rparr>)"
    by (intro body_terminal) auto
  with h show "attempt_loop p e a w =
            (Some \<lparr>statusCode = status r,
                   body = Json_obj [(''error'', ''Gemini API error: '' @ string_of_nat (status r)),
                                    (''details'', b)]\<rparr>,
             w\<lparr>calls := calls w + 1\<rparr>)"
    by (simp add: loop_Return)
next
  assume h: "req_method req = ''POST'' \<and> req_body req = Inr rb \<and> \<not> no_key e
        \<and> upstream e 0 = Resolves r \<and> status r = 404 \<and> resp_text r = Inr b"
  then have "attempt_body policy e 0 world0 =
     (Return \<lparr>statusCode = status r,
              body = Json_obj [(''error'', ''Gemini API error: '' @ string_of_nat (status r)),
                               (''details'', b)]\<rparr>, world0\<lparr>calls := calls world0 + 1\<rparr>)"
    by (intro body_terminal) (auto simp: ok_def)
  moreover have "0 < MAX_RETRIES policy" by (simp add: policy_def)
  ultimately have "attempt_loop policy e 0 world0 =
     (Some \<lparr>statusCode = status r,
              body = Json_obj [(''error'', ''Gemini API error: '' @ string_of_nat (status r)),
                               (''details'', b)]\<rparr>, world0\<lparr>calls := calls world0 + 1\<rparr>)"
    by (simp add: loop_Return)
  with h show "handler req e =
            (\<lparr>statusCode = 404,
              body = Json_obj [(''error'', ''Gemini API error: 404''), (''details'', b)]\<rparr>,
             \<lparr>calls = 1, pending = [], delays = []\<rparr>)"
    by (simp add: handler_def try_block_def world0_def string_of_nat.simps)
qed

theorem status_classification_witness:
  "(1 < MAX_RETRIES policy - 1 \<and> upstream env_404_then_503 1 = Resolves (resp 503 ''busy'')
      \<and> (status (resp 503 ''busy'') = 429 \<or> 500 \<le> status (resp 503 ''busy''))
      \<and> fst (attempt_body policy env_404_then_503 1 world0) = Continue)
   \<and> (0 < MAX_RETRIES policy \<and> upstream env_404_then_503 0 = Resolves (resp 404 ''not found'')
        \<and> \<not> ok (resp 404 ''not found'')
        \<and> status (resp 404 ''not found'') \<noteq> 429 \<and> status (resp 404 ''not found'') < 500
        \<and> resp_text (resp 404 ''not found'') = Inr ''not found''
        \<and> req_method post_req = ''POST'' \<and> \<not> no_key env_404_then_503
        \<and> attempt_loop policy env_404_then_503 0 world0 =
            (Some \<lparr>statusCode = 404,
                   body = Json_obj [(''error'', ''Gemini API error: 404''),
                                    (''details'', ''not found'')]\<rparr>,
             \<lparr>calls = 1, pending = [], delays = []\<rparr>)
        \<and> handler post_req env_404_then_503 =
            (\<lparr>statusCode = 404,
              body = Json_obj [(''error'', ''Gemini API error: 404''),
                               (''details'', ''not found'')]\<rparr>,
             \<lparr>calls = 1, pending = [], delays = []\<rparr>))"
  using status_classification [of 1 policy env_404_then_503 "resp 503 ''busy''" world0 "''busy''"
          post_req "\<lparr>userInput = ''hi'', systemPrompt = ''be brief'', useSearch = False\<rparr>"]
        status_classification [of 0 policy env_404_then_503 "resp 404 ''not found''" world0
          "''not found''" post_req
          "\<lparr>userInput = ''hi'', systemPrompt = ''be brief'', useSearch = False\<rparr>"]
  by (simp add: policy_def env_404_then_503_def env_of_def resp_def ok_def post_req_def
      no_key_def world0_def string_of_nat.simps)

text \<open>
  C3. If the \<open>fetch\<close> of every attempt is rejected, by the timeout or by a network
  failure, the handler answers 504 \<open>Gateway timeout\<close> whose \<open>details\<close> are the
  message of the last rejection, after \<open>MAX_RETRIES\<close> calls. (Lemma
  \<open>rejects_loop\<close> is the same fact about the loop for every policy with at least one
  attempt.)
\<close>

theorem transport_failures_exhaust:
  assumes "req_method req = ''POST''" and "req_body req = Inr b" and "\<not> no_key e"
    and "\<forall>i<MAX_RETRIES policy. upstream e i = Rejects (f i)"
  shows "fst (handler req e) =
           \<lparr>statusCode = 504,
             body = Json_obj [(''error'', ''Gateway timeout''),
                              (''message'', ''Failed to get response from Gemini API''),
                              (''details'', message (f (MAX_RETRIES policy - 1)))]\<rparr>
         \<and> calls (snd (handler req e)) = MAX_RETRIES policy"
proof -
  have "0 < MAX_RETRIES policy" by (simp add: policy_def)
  moreover have "\<forall>i. 0 \<le> i \<and> i < MAX_RETRIES policy \<longrightarrow> upstream e i = Rejects (f i)"
    using assms(4) by simp
  ultimately have l: "fst (attempt_loop policy e 0 world0) =
           Some \<lparr>statusCode = 504,
                 body = Json_obj [(''error'', ''Gateway timeout''),
                                  (''message'', ''Failed to get response from Gemini API''),
                                  (''details'', message (f (MAX_RETRIES policy - 1)))]\<rparr>
         \<and> calls (snd (attempt_loop policy e 0 world0)) = calls world0 + (MAX_RETRIES policy - 0)"
    by (rule rejects_loop)
  obtain x w' where p: "attempt_loop policy e 0 world0 = (x, w')"
    by (cases "attempt_loop policy e 0 world0")
  with l assms(1-3) show ?thesis
    by (simp add: handler_def try_block_def world0_def)
qed

theorem transport_failures_exhaust_witness:
  "req_method post_req = ''POST''
   \<and> req_body post_req = Inr \<lparr>userInput = ''hi'', systemPrompt = ''be brief'', useSearch = False\<rparr>
   \<and> \<not> no_key env_outage
   \<and> upstream env_outage 0 = Rejects (Failed ''fetch failed'')
   \<and> upstream env_outage 3 = Rejects (Failed ''fetch failed'')
   \<and> upstream env_outage 4 = Rejects (Aborted ''This operation was aborted'')
   \<and> fst (handler post_req env_outage) =
           \<lparr>statusCode = 504,
             body = Json_obj [(''error'', ''Gateway timeout''),
                              (''message'', ''Failed to get response from Gemini API''),
                              (''details'', ''This operation was aborted'')]\<rparr>
   \<and> calls (snd (handler post_req env_outage)) = 5"
proof -
  have h1: "req_method post_req = ''POST''" by (simp add: post_req_def)
  have h2: "req_body post_req = Inr \<lparr>userInput = ''hi'', systemPrompt = ''be brief'', useSearch = False\<rparr>"
    by (simp add: post_req_def)
  have h3: "\<not> no_key env_outage" by (simp add: no_key_def env_outage_def env_of_def)
  have h4: "\<forall>i<MAX_RETRIES policy. upstream env_outage i = Rejects (outage i)"
    by (simp add: env_outage_def env_of_def)
  from transport_failures_exhaust [OF h1 h2 h3 h4] h1 h2 h3 show ?thesis
    by (simp add: policy_def outage_def env_outage_def env_of_def)
qed

text \<open>
  C4, as claimed, fails: the delay is computed in doubles, and the rounded sum can reach
  the upper end of the interval. With \<open>Math.random() = 1 - 2 ^ - 52\<close> on attempt 0 the
  jitter rounds to \<open>120 - 2 ^ - 45\<close>, the sum \<open>320 - 2 ^ - 45\<close> lies halfway between
  two doubles, and the tie goes to \<open>320 = BASE_DELAY + 120\<close>: the wait is not below
  the bound, nor is it \<open>BASE_DELAY * 2 ^ 0\<close> plus the jitter.
\<close>

theorem backoff_delay_counterexample:
  "retryable (upstream env_503_top_draw 0) \<and> 0 < MAX_RETRIES policy - 1
   \<and> 0 \<le> random env_503_top_draw 0 \<and> random env_503_top_draw 0 < 1
   \<and> 0 < JITTER_BOUND policy
   \<and> delays (snd (attempt_body policy env_503_top_draw 0 world0)) = [320]
   \<and> BASE_DELAY policy * 2 ^ 0 + JITTER_BOUND policy = 320"
  by (simp add: eval_defs env_503_top_draw_def)

text \<open>
  C4, amended. On a retryable outcome (a rejected \<open>fetch\<close>, or status 429 or at least
  500) of an attempt \<open>a\<close> that is not the last, the loop body continues after waiting
  \<open>BASE_DELAY * 2 ^ a + Math.random() * JITTER_BOUND\<close> as double arithmetic computes
  it, with no ceiling and by the same formula for both kinds of outcome. With
  \<open>Math.random()\<close> in \<open>[0, 1)\<close>, and the base term, the bound and their sum being
  doubles, the wait lies in the closed interval
  \<open>[BASE_DELAY * 2 ^ a, BASE_DELAY * 2 ^ a + JITTER_BOUND]\<close>. With the constants of the
  source they are doubles on every attempt that backs off.
\<close>

theorem backoff_delay_rounded:
  assumes "retryable (upstream e a)" and "a < MAX_RETRIES p - 1"
  shows "fst (attempt_body p e a w) = Continue
         \<and> delays (snd (attempt_body p e a w)) =
             delays w @ [fl (fl (BASE_DELAY p * 2 ^ a) + fl (random e a * JITTER_BOUND p))]
         \<and> (0 \<le> random e a \<and> random e a < 1 \<and> 0 \<le> JITTER_BOUND p
              \<and> representable (BASE_DELAY p * 2 ^ a) \<and> representable (JITTER_BOUND p)
              \<and> representable (BASE_DELAY p * 2 ^ a + JITTER_BOUND p) \<longrightarrow>
              BASE_DELAY p * 2 ^ a \<le> last (delays (snd (attempt_body p e a w)))
              \<and> last (delays (snd (attempt_body p e a w)))
                  \<le> BASE_DELAY p * 2 ^ a + JITTER_BOUND p)
         \<and> (p = policy \<longrightarrow>
              0 \<le> JITTER_BOUND p
              \<and> representable (BASE_DELAY p * 2 ^ a) \<and> representable (JITTER_BOUND p)
              \<and> representable (BASE_DELAY p * 2 ^ a + JITTER_BOUND p))"
proof -
  let ?B = "BASE_DELAY p * 2 ^ a" and ?J = "JITTER_BOUND p" and ?r = "random e a"
  have d: "retry_delay p e a = fl (fl ?B + fl (?r * ?J))"
    by (simp add: retry_delay_def)
  have bounds: "?B \<le> fl (fl ?B + fl (?r * ?J)) \<and> fl (fl ?B + fl (?r * ?J)) \<le> ?B + ?J"
    if r: "0 \<le> ?r" "?r < 1" and j: "0 \<le> ?J"
      and rep: "representable ?B" "representable ?J" "representable (?B + ?J)"
  proof -
    have "0 \<le> ?r * ?J" using r(1) j by simp
    then have "fl 0 \<le> fl (?r * ?J)" by (rule fl_mono)
    then have lo: "0 \<le> fl (?r * ?J)" by simp
    have "?r * ?J \<le> 1 * ?J" using r(2) j by (intro mult_right_mono) simp_all
    then have "fl (?r * ?J) \<le> fl ?J" using fl_mono [of "?r * ?J" ?J] by simp
    then have hi: "fl (?r * ?J) \<le> ?J" using rep(2) by (simp add: representable_def)
    have fb: "fl ?B = ?B" using rep(1) by (simp add: representable_def)
    have "fl ?B \<le> fl (?B + fl (?r * ?J))" using lo by (intro fl_mono) simp
    moreover have "fl (?B + fl (?r * ?J)) \<le> fl (?B + ?J)" using hi by (intro fl_mono) simp
    moreover have "fl (?B + ?J) = ?B + ?J" using rep(3) by (simp add: representable_def)
    ultimately show ?thesis using fb by simp
  qed
  have pol: "0 \<le> ?J \<and> representable ?B \<and> representable ?J \<and> representable (?B + ?J)"
    if "p = policy"
  proof -
    from that assms(2) have "a < 4" by (simp add: policy_def)
    then consider "a = 0" | "a = 1" | "a = 2" | "a = 3" by linarith
    then show ?thesis
      by cases (simp_all add: that policy_def representable_def fl_eval)
  qed
  from retry_continues [OF assms, of w] d bounds pol show ?thesis by auto
qed

theorem backoff_delay_rounded_witness:
  "retryable (upstream env_404_then_503 2) \<and> 2 < MAX_RETRIES policy - 1
   \<and> 0 \<le> random env_404_then_503 2 \<and> random env_404_then_503 2 < 1
   \<and> 0 \<le> JITTER_BOUND policy
   \<and> representable (BASE_DELAY policy * 2 ^ 2) \<and> representable (JITTER_BOUND policy)
   \<and> representable (BASE_DELAY policy * 2 ^ 2 + JITTER_BOUND policy)
   \<and> fst (attempt_body policy env_404_then_503 2 world0) = Continue
   \<and> delays (snd (attempt_body policy env_404_then_503 2 world0)) = [860]
   \<and> (800::rat) \<le> 860 \<and> (860::rat) \<le> 800 + 120"
  using backoff_delay_rounded [of env_404_then_503 2 policy world0]
  by (simp add: env_404_then_503_def env_of_def resp_def policy_def world0_def
      representable_def fl_eval)

text \<open>
  C5, as claimed, fails: a response in the success range is not always returned. The
  handler awaits \<open>response.json()\<close> inside the inner \<open>try\<close>; when the body is
  not JSON the rejection lands in the \<open>catch\<close> block and the attempt is retried after
  a backoff. Here attempt 0 receives status 200 with an HTML page as its body: the loop body
  continues, and the handler makes a second call after waiting 260 ms.
\<close>

theorem success_unparsed_counterexample:
  "0 < MAX_RETRIES policy \<and> upstream env_html_then_ok 0 = Resolves (resp 200 ''<html>'')
   \<and> ok (resp 200 ''<html>'')
   \<and> fst (attempt_body policy env_html_then_ok 0 world0) = Continue
   \<and> handler post_req env_html_then_ok =
       (\<lparr>statusCode = 200, body = Json_value ''{}''\<rparr>,
        \<lparr>calls = 2, pending = [], delays = [260]\<rparr>)"
  by (simp add: eval_defs env_html_then_ok_def)

text \<open>
  C5, amended. On any attempt \<open>a < MAX_RETRIES\<close>, a response in the success range
  whose body parses as JSON ends the loop at once with status 200 and the parsed value
  \<open>j\<close>, whatever \<open>j\<close> is: the world afterwards differs from the world before only
  by this one call, so no later call is made and no backoff delay is taken.
\<close>

theorem success_returns_at_once:
  assumes "a < MAX_RETRIES p" and "upstream e a = Resolves r" and "ok r"
    and "resp_json r = Inr j"
  shows "attempt_loop p e a w =
           (Some \<lparr>statusCode = 200, body = Json_value j\<rparr>, w\<lparr>calls := calls w + 1\<rparr>)"
  using assms by (simp add: loop_Return body_success)

theorem success_returns_at_once_witness:
  "1 < MAX_RETRIES policy \<and> upstream env_html_then_ok 1 = Resolves (resp_ok ''{}'')
   \<and> ok (resp_ok ''{}'') \<and> resp_json (resp_ok ''{}'') = Inr ''{}''
   \<and> attempt_loop policy env_html_then_ok 1 \<lparr>calls = 1, pending = [], delays = [260]\<rparr> =
       (Some \<lparr>statusCode = 200, body = Json_value ''{}''\<rparr>,
        \<lparr>calls = 2, pending = [], delays = [260]\<rparr>)"
  using success_returns_at_once [of 1 policy env_html_then_ok "resp_ok ''{}''" "''{}''"
          "\<lparr>calls = 1, pending = [], delays = [260]\<rparr>"]
  by (simp add: policy_def env_html_then_ok_def env_of_def resp_ok_def ok_def)

text \<open>
  C6, as claimed, fails: the gate on the request method stands before the check of the
  key, so a \<open>GET\<close> request without a key is answered with 405, not 500.
\<close>

theorem missing_key_counterexample:
  "no_key no_key_env
   \<and> handler get_req no_key_env =
       (\<lparr>statusCode = 405, body = Json_obj [(''error'', ''Method not allowed'')]\<rparr>,
        \<lparr>calls = 0, pending = [], delays = []\<rparr>)"
  by (simp add: handler_def get_req_def post_req_def no_key_env_def env_of_def no_key_def
      world0_def)

text \<open>
  C6, amended. When the API key is absent (unset or empty) neither handler makes a remote
  call, whatever the request. A \<open>POST\<close> request is then answered with status 500, and,
  when its body can be read, with the error \<open>API Key not configured\<close>.
\<close>

theorem missing_key_no_calls:
  assumes "no_key e"
  shows "calls (snd (handler req e)) = 0 \<and> calls (snd (netlify_handler ev e)) = 0
    \<and> (req_method req = ''POST'' \<longrightarrow> statusCode (fst (handler req e)) = 500)
    \<and> (req_method req = ''POST'' \<and> req_body req = Inr b \<longrightarrow>
         fst (handler req e) =
           \<lparr>statusCode = 500, body = Json_obj [(''error'', ''API Key not configured'')]\<rparr>)
    \<and> (httpMethod ev = ''POST'' \<longrightarrow> statusCode (fst (netlify_handler ev e)) = 500)
    \<and> (httpMethod ev = ''POST'' \<and> event_body ev = Inr b' \<longrightarrow>
         fst (netlify_handler ev e) =
           \<lparr>statusCode = 500, body = Json_obj [(''error'', ''API Key not configured'')]\<rparr>)"
  using assms
  by (auto simp: handler_def try_block_def netlify_handler_def netlify_try_def world0_def
      split: sum.splits)

theorem missing_key_no_calls_witness:
  "no_key no_key_env \<and> req_method post_req = ''POST'' \<and> httpMethod post_event = ''POST''
   \<and> handler post_req no_key_env =
       (\<lparr>statusCode = 500, body = Json_obj [(''error'', ''API Key not configured'')]\<rparr>,
        \<lparr>calls = 0, pending = [], delays = []\<rparr>)
   \<and> netlify_handler post_event no_key_env =
       (\<lparr>statusCode = 500, body = Json_obj [(''error'', ''API Key not configured'')]\<rparr>,
        \<lparr>calls = 0, pending = [], delays = []\<rparr>)"
proof -
  have k: "no_key no_key_env" by (simp add: no_key_env_def env_of_def no_key_def)
  have w0: "snd (handler post_req no_key_env) = \<lparr>calls = 0, pending = [], delays = []\<rparr>"
    and w1: "snd (netlify_handler post_event no_key_env) = \<lparr>calls = 0, pending = [], delays = []\<rparr>"
    using k by (simp_all add: handler_def try_block_def netlify_handler_def netlify_try_def
        world0_def post_req_def post_event_def)
  from missing_key_no_calls [OF k, of post_req post_event
      "\<lparr>userInput = ''hi'', systemPrompt = ''be brief'', useSearch = False\<rparr>"
      "\<lparr>userInput = ''hi'', systemPrompt = ''be brief'', useSearch = False\<rparr>"]
  have "fst (handler post_req no_key_env) =
           \<lparr>statusCode = 500, body = Json_obj [(''error'', ''API Key not configured'')]\<rparr>"
    and "fst (netlify_handler post_event no_key_env) =
           \<lparr>statusCode = 500, body = Json_obj [(''error'', ''API Key not configured'')]\<rparr>"
    by (simp_all add: post_req_def post_event_def)
  with k w0 w1 show ?thesis by (simp add: prod_eq_iff post_req_def post_event_def)
qed

text \<open>
  C7. Every invocation of the handler ends with exactly one outcome, which is either a
  success or a structured failure, after at most \<open>MAX_RETRIES\<close> remote calls. The
  handler is a total function (the loop is defined with the measure
  \<open>MAX_RETRIES - attempt\<close>), and the errors thrown inside its \<open>try\<close> block are
  values that its \<open>catch\<close> block turns into an answer.
\<close>

theorem handler_one_terminal_outcome:
  "calls (snd (handler req e)) \<le> MAX_RETRIES policy
   \<and> is_success (fst (handler req e)) \<noteq> is_failure (fst (handler req e))"
proof (cases "req_method req = ''POST'' \<and> \<not> no_key e \<and> (\<exists>b. req_body req = Inr b)")
  case True
  obtain r w' where l: "attempt_loop policy e 0 world0 = (Some r, w')"
    using policy_loop_returns [of e world0] by (cases "attempt_loop policy e 0 world0") auto
  then have "\<exists>a' w0. fst (attempt_body policy e a' w0) = Return r"
    using loop_result_from_body [of policy e 0 world0 r] by simp
  then have o: "is_success r \<noteq> is_failure r" using body_return_outcome by blast
  have "calls w' \<le> MAX_RETRIES policy"
    using loop_calls_le [of policy e 0 world0] l by (simp add: world0_def)
  with True l o show ?thesis by (auto simp: handler_def try_block_def)
next
  case False
  then show ?thesis
    by (auto simp: handler_def try_block_def is_success_def is_failure_def world0_def
        split: sum.splits)
qed

text \<open>
  C8. The claim: the timer of an attempt is cancelled on every path. The code calls
  \<open>clearTimeout\<close> only on the line after the awaited \<open>fetch\<close>; the
  \<open>catch\<close> block does not (\<open>timeoutId\<close> is not even in its scope). When the
  \<open>fetch\<close> of attempt 0 is rejected by a network failure and attempt 1 succeeds,
  the handler returns while the timer of attempt 0 is still pending.
\<close>

theorem handler_stray_timer:
  "handler post_req env_refused_then_ok =
     (\<lparr>statusCode = 200, body = Json_value ''{}''\<rparr>,
      \<lparr>calls = 2, pending = [0], delays = [260]\<rparr>)"
  by (simp add: eval_defs env_refused_then_ok_def)

text \<open>
  C9. With a jitter bound of zero and a base delay that is not negative, the backoff delay
  does not decrease from one attempt to the next (rounding to a double is monotone).
\<close>

theorem zero_jitter_monotone:
  "0 \<le> BASE_DELAY p \<Longrightarrow> JITTER_BOUND p = 0 \<Longrightarrow> retry_delay p e i \<le> retry_delay p e (Suc i)"
proof -
  assume b: "0 \<le> BASE_DELAY p" and j: "JITTER_BOUND p = 0"
  have "BASE_DELAY p * 2 ^ i \<le> BASE_DELAY p * 2 ^ Suc i"
    using b by (simp add: mult_left_mono)
  then have "fl (BASE_DELAY p * 2 ^ i) \<le> fl (BASE_DELAY p * 2 ^ Suc i)" by (rule fl_mono)
  then have "fl (fl (BASE_DELAY p * 2 ^ i)) \<le> fl (fl (BASE_DELAY p * 2 ^ Suc i))"
    by (rule fl_mono)
  then show ?thesis using j by (simp add: retry_delay_def)
qed

theorem zero_jitter_monotone_witness:
  "0 \<le> BASE_DELAY (policy\<lparr>JITTER_BOUND := 0\<rparr>) \<and> JITTER_BOUND (policy\<lparr>JITTER_BOUND := 0\<rparr>) = 0
   \<and> retry_delay (policy\<lparr>JITTER_BOUND := 0\<rparr>) env_500s 2 = 800
   \<and> retry_delay (policy\<lparr>JITTER_BOUND := 0\<rparr>) env_500s (Suc 2) = 1600
   \<and> retry_delay (policy\<lparr>JITTER_BOUND := 0\<rparr>) env_500s 2
       \<le> retry_delay (policy\<lparr>JITTER_BOUND := 0\<rparr>) env_500s (Suc 2)"
  using zero_jitter_monotone [of "policy\<lparr>JITTER_BOUND := 0\<rparr>" env_500s 2]
  by (simp add: policy_def retry_delay_def fl_eval)

text \<open>
  C10. The return of \<open>Maximum retries exceeded\<close> that follows the loop is never
  reached: in the last iteration, \<open>attempt = MAX_RETRIES - 1\<close>, the loop body returns
  on every branch; the loop started at attempt 0 ends by a return from inside an
  iteration, never through its condition; and no answer of the handler is the object
  built after the loop.
\<close>

theorem after_loop_unreachable:
  "fst (attempt_body policy e (MAX_RETRIES policy - 1) w) \<noteq> Continue
   \<and> fst (attempt_loop policy e 0 w) \<noteq> None
   \<and> body (fst (handler req e)) \<noteq>
       Json_obj [(''error'', ''Gateway timeout''), (''message'', ''Maximum retries exceeded'')]"
proof (intro conjI)
  show "fst (attempt_body policy e (MAX_RETRIES policy - 1) w) \<noteq> Continue"
    by (rule last_attempt_returns) simp
  show "fst (attempt_loop policy e 0 w) \<noteq> None" by (rule policy_loop_returns)
  show "body (fst (handler req e)) \<noteq>
       Json_obj [(''error'', ''Gateway timeout''), (''message'', ''Maximum retries exceeded'')]"
  proof (cases "req_method req = ''POST'' \<and> \<not> no_key e \<and> (\<exists>b. req_body req = Inr b)")
    case True
    obtain r w' where l: "attempt_loop policy e 0 world0 = (Some r, w')"
      using policy_loop_returns [of e world0] by (cases "attempt_loop policy e 0 world0") auto
    then have "\<exists>a' w0. fst (attempt_body policy e a' w0) = Return r"
      using loop_result_from_body [of policy e 0 world0 r] by simp
    then have "body r \<noteq>
       Json_obj [(''error'', ''Gateway timeout''), (''message'', ''Maximum retries exceeded'')]"
      using body_return_not_exceeded by blast
    with True l show ?thesis by (auto simp: handler_def try_block_def)
  next
    case False
    then show ?thesis by (auto simp: handler_def try_block_def split: sum.splits)
  qed
qed

end
